theory Spec2Isabelle
  imports Complex_Main
begin

section \<open>JavaScript strings\<close>

text \<open>
  A JavaScript string is modelled as a \<^typ>\<open>string\<close>: one \<^typ>\<open>char\<close> per code unit, so the
  alphabet is the code units below 256. White space is what \<^verbatim>\<open>\s\<close> and \<^verbatim>\<open>trim\<close> count as
  white space in that range: tab, line feed, vertical tab, form feed, carriage return,
  space and the no-break space.
\<close>

definition is_space :: "char \<Rightarrow> bool" where
  "is_space c = (c \<in> set [CHR 0x09, CHR 0x0A, CHR 0x0B, CHR 0x0C, CHR 0x0D, CHR 0x20, CHR 0xA0])"

text \<open>\<^verbatim>\<open>s.trim()\<close>\<close>

definition trim :: "string \<Rightarrow> string" where
  "trim s = rev (dropWhile is_space (rev (dropWhile is_space s)))"

text \<open>\<^verbatim>\<open>s.startsWith(t)\<close>\<close>

definition startsWith :: "string \<Rightarrow> string \<Rightarrow> bool" where
  "startsWith s t = (take (length t) s = t)"

text \<open>\<^verbatim>\<open>s.split(sep)\<close> for a separator of one character: never the empty list.\<close>

fun js_split :: "char \<Rightarrow> string \<Rightarrow> string list" where
  "js_split sep [] = [[]]"
| "js_split sep (c # cs) =
     (if c = sep then [] # js_split sep cs
      else (case js_split sep cs of [] \<Rightarrow> [[c]] | w # ws \<Rightarrow> (c # w) # ws))"

text \<open>\<^verbatim>\<open>xs.join(sep)\<close>\<close>

fun join :: "string \<Rightarrow> string list \<Rightarrow> string" where
  "join sep [] = []"
| "join sep [x] = x"
| "join sep (x # y # ys) = x @ sep @ join sep (y # ys)"

text \<open>\<^verbatim>\<open>data.split(/\r?\n/)\<close>: a line ends at a line feed, which takes a carriage return
  right before it along; a carriage return elsewhere stays in its line.\<close>

fun split_lines :: "string \<Rightarrow> string list" where
  "split_lines [] = [[]]"
| "split_lines (c # cs) =
     (if c = CHR 0x0A then [] # split_lines cs
      else if c = CHR 0x0D \<and> cs \<noteq> [] \<and> hd cs = CHR 0x0A then [] # split_lines (tl cs)
      else (case split_lines cs of [] \<Rightarrow> [[c]] | l # ls \<Rightarrow> (c # l) # ls))"

section \<open>Regular expressions\<close>

text \<open>
  The patterns of parser.js use character classes, literal text, sequence, the greedy
  and the lazy star, the greedy option, capturing groups and the two anchors. The
  matcher is a backtracking one, as the one of ECMAScript: \<open>run r st\<close> lists every way
  \<open>r\<close> can match at the state \<open>st\<close>, in the order in which backtracking tries them, so the
  head of the list is the match JavaScript reports. A state is the index reached, the
  text left and the groups captured so far. An iteration of a quantifier that consumes
  nothing is rejected, as in ECMAScript. (The patterns have no group inside a star, so
  the reset of inner groups at each iteration has nothing to do.)
\<close>

datatype cclass =
    Space          \<comment> \<open>\<^verbatim>\<open>\s\<close>\<close>
  | NotSpace       \<comment> \<open>\<^verbatim>\<open>[^\s]\<close>\<close>
  | Dot            \<comment> \<open>\<^verbatim>\<open>.\<close>: any character but a line terminator\<close>
  | NotHashSpace   \<comment> \<open>\<^verbatim>\<open>[^#\s]\<close>\<close>
  | NotColon       \<comment> \<open>\<^verbatim>\<open>[^:]\<close>\<close>

fun in_class :: "cclass \<Rightarrow> char \<Rightarrow> bool" where
  "in_class Space c = is_space c"
| "in_class NotSpace c = (\<not> is_space c)"
| "in_class Dot c = (c \<noteq> CHR 0x0A \<and> c \<noteq> CHR 0x0D)"
| "in_class NotHashSpace c = (c \<noteq> CHR ''#'' \<and> \<not> is_space c)"
| "in_class NotColon c = (c \<noteq> CHR '':'')"

datatype regex =
    Bol                  \<comment> \<open>\<^verbatim>\<open>^\<close>\<close>
  | Eol                  \<comment> \<open>\<^verbatim>\<open>$\<close>\<close>
  | Cls cclass
  | Lit string           \<comment> \<open>literal text\<close>
  | Seq regex regex
  | Star regex           \<comment> \<open>\<^verbatim>\<open>r*\<close>\<close>
  | LazyStar regex       \<comment> \<open>\<^verbatim>\<open>r*?\<close>\<close>
  | Opt regex            \<comment> \<open>\<^verbatim>\<open>r?\<close>\<close>
  | Group nat regex      \<comment> \<open>the capturing group of that number\<close>

type_synonym groups = "nat \<rightharpoonup> string"
type_synonym mstate = "nat \<times> string \<times> groups"

fun run :: "regex \<Rightarrow> mstate \<Rightarrow> mstate list" where
  "run Bol (i, s, g) = (if i = 0 then [(i, s, g)] else [])"
| "run Eol (i, s, g) = (if s = [] then [(i, s, g)] else [])"
| "run (Cls k) (i, s, g) =
     (case s of [] \<Rightarrow> [] | x # xs \<Rightarrow> if in_class k x then [(Suc i, xs, g)] else [])"
| "run (Lit t) (i, s, g) =
     (if take (length t) s = t then [(i + length t, drop (length t) s, g)] else [])"
| "run (Seq a b) st = concat (map (run b) (run a st))"
| "run (Star a) (i, s, g) =
     concat (map (\<lambda>(j, s', g'). if length s' < length s then run (Star a) (j, s', g') else [])
                 (run a (i, s, g)))
     @ [(i, s, g)]"
| "run (LazyStar a) (i, s, g) =
     (i, s, g) #
     concat (map (\<lambda>(j, s', g'). if length s' < length s then run (LazyStar a) (j, s', g') else [])
                 (run a (i, s, g)))"
| "run (Opt a) (i, s, g) =
     concat (map (\<lambda>(j, s', g'). if length s' < length s then [(j, s', g')] else [])
                 (run a (i, s, g)))
     @ [(i, s, g)]"
| "run (Group n a) (i, s, g) =
     map (\<lambda>(j, s', g'). (j, s', g'(n \<mapsto> take (j - i) s))) (run a (i, s, g))"

text \<open>\<^verbatim>\<open>r+\<close> and a sequence of more than two.\<close>

definition Plus :: "regex \<Rightarrow> regex" where
  "Plus r = Seq r (Star r)"

fun seqs :: "regex list \<Rightarrow> regex" where
  "seqs [] = Lit []"
| "seqs [r] = r"
| "seqs (r # rs) = Seq r (seqs rs)"

text \<open>
  \<^verbatim>\<open>s.match(r)\<close> for a pattern without flags: the first index, from 0 on, at which the
  pattern matches, and there the first match in backtracking order. The result maps 0
  to the text matched and a group's number to its text; a group that took no part is
  undefined (\<open>None\<close>). No match is \<^verbatim>\<open>null\<close> (\<open>None\<close>).
\<close>

definition match_at :: "regex \<Rightarrow> string \<Rightarrow> nat \<Rightarrow> groups option" where
  "match_at r s i =
     (case run r (i, drop i s, Map.empty) of
        [] \<Rightarrow> None
      | (j, _, g) # _ \<Rightarrow> Some (g(0 \<mapsto> take (j - i) (drop i s))))"

fun match_from :: "regex \<Rightarrow> string \<Rightarrow> nat \<Rightarrow> nat \<Rightarrow> groups option" where
  "match_from r s i 0 = match_at r s i"
| "match_from r s i (Suc n) =
     (case match_at r s i of Some m \<Rightarrow> Some m | None \<Rightarrow> match_from r s (Suc i) n)"

definition js_match :: "string \<Rightarrow> regex \<Rightarrow> groups option" where
  "js_match s r = match_from r s 0 (length s)"

text \<open>The text of a group that takes part in every match of its pattern.\<close>

definition group_text :: "groups \<Rightarrow> nat \<Rightarrow> string" where
  "group_text m n = (case m n of None \<Rightarrow> [] | Some t \<Rightarrow> t)"

section \<open>The data model\<close>

text \<open>
  The value tree a YAML document parses to: null, booleans, numbers, strings,
  sequences, and maps as the list of their entries in the order JavaScript enumerates
  them. A lookup that finds nothing yields \<^verbatim>\<open>undefined\<close>, which is \<open>None\<close> of
  \<^typ>\<open>'a option\<close>.
\<close>

datatype json =
    JNull
  | JBool bool
  | JNum real
  | JStr string
  | JArr "json list"
  | JObj "(string \<times> json) list"

text \<open>
  Modelled from the spec: the Parameter container of section 3 (parameter.js is not
  among the sources). The constructor takes the name; \<open>skip\<close> and \<open>extra\<close> are false and
  every other field is unassigned (\<open>None\<close>) until a pass assigns it.
\<close>

record Parameter =
  name :: string
  description :: "string option"
  modifiers :: "string list option"
  section' :: "string option"
  skip :: bool
  extra :: bool
  type' :: "string option"
  value' :: "json option"
  schema :: "bool option"

definition newParameter :: "string \<Rightarrow> Parameter" where
  "newParameter n =
     \<lparr>name = n, description = None, modifiers = None, section' = None, skip = False,
      extra = False, type' = None, value' = None, schema = None\<rparr>"

text \<open>
  Modelled from the spec: the Section container of section 3 (section.js is not among
  the sources): a name, the lines of its description and its parameters, both in the
  order in which they were added.
\<close>

record Section =
  section_name :: string
  section_description :: "string list"
  section_parameters :: "Parameter list"

definition newSection :: "string \<Rightarrow> Section" where
  "newSection n = \<lparr>section_name = n, section_description = [], section_parameters = []\<rparr>"

definition section_addParameter :: "Parameter \<Rightarrow> Section \<Rightarrow> Section" where
  "section_addParameter p s = s\<lparr>section_parameters := section_parameters s @ [p]\<rparr>"

definition addDescriptionLine :: "string \<Rightarrow> Section \<Rightarrow> Section" where
  "addDescriptionLine l s = s\<lparr>section_description := section_description s @ [l]\<rparr>"

text \<open>
  Modelled from the spec: the Metadata container of section 3 (metadata.js is not among
  the sources): the sections in order of appearance and every parameter produced.
\<close>

record Metadata =
  sections :: "Section list"
  parameters :: "Parameter list"

definition newMetadata :: Metadata where
  "newMetadata = \<lparr>sections = [], parameters = []\<rparr>"

definition addSection :: "Section \<Rightarrow> Metadata \<Rightarrow> Metadata" where
  "addSection s m = m\<lparr>sections := sections m @ [s]\<rparr>"

definition addParameter :: "Parameter \<Rightarrow> Metadata \<Rightarrow> Metadata" where
  "addParameter p m = m\<lparr>parameters := parameters m @ [p]\<rparr>"

section \<open>The path tracking of parser.js\<close>

record yamlInfo =
  isYamlKey :: bool
  indent :: nat
  key :: string
  yaml_value :: string
  hasValue :: bool

text \<open>\<^verbatim>\<open>/^(\s*)([^#\s][^:]*?):\s*(.*)$/\<close>\<close>

definition yamlKeyRegex :: regex where
  "yamlKeyRegex =
     seqs [Bol, Group 1 (Star (Cls Space)),
           Group 2 (Seq (Cls NotHashSpace) (LazyStar (Cls NotColon))),
           Lit '':'', Star (Cls Space), Group 3 (Star (Cls Dot)), Eol]"

text \<open>
  \<open>parseYamlLine\<close>. Without a match the source returns an object that has the field
  \<open>isYamlKey\<close> only; the other fields of the record are then fillers, which no caller reads.
\<close>

definition parseYamlLine :: "string \<Rightarrow> yamlInfo" where
  "parseYamlLine line =
     (case js_match line yamlKeyRegex of
        Some m \<Rightarrow>
          (let v = trim (group_text m 3);
               isComment = startsWith (trim line) ''#''
           in \<lparr>isYamlKey = \<not> isComment,
               indent = length (group_text m 1),
               key = trim (group_text m 2),
               yaml_value = v,
               hasValue = (v \<noteq> [] \<and> v \<noteq> ''{}'' \<and> v \<noteq> ''[]'')\<rparr>)
      | None \<Rightarrow> \<lparr>isYamlKey = False, indent = 0, key = [], yaml_value = [], hasValue = False\<rparr>)"

definition buildCurrentPath :: "string list \<Rightarrow> string" where
  "buildCurrentPath pathStack = (if length pathStack > 0 then join ''.'' pathStack else [])"

text \<open>
  \<open>updatePathStack\<close>: the stacks are arrays with the top at the end. \<open>popDeeper\<close> is the
  while loop (\<^verbatim>\<open>pop\<close> leaves an empty array empty); the source changes the two arrays in
  place, the model returns them.
\<close>

function popDeeper :: "string list \<Rightarrow> nat list \<Rightarrow> nat \<Rightarrow> string list \<times> nat list" where
  "popDeeper pathStack indentStack currentIndent =
     (if length indentStack > 0 \<and> last indentStack \<ge> currentIndent
      then popDeeper (butlast pathStack) (butlast indentStack) currentIndent
      else (pathStack, indentStack))"
  by pat_completeness auto
termination
  by (relation "measure (\<lambda>(p, i, c). length i)") auto

declare popDeeper.simps [simp del]

definition updatePathStack ::
  "string list \<Rightarrow> nat list \<Rightarrow> nat \<Rightarrow> string \<Rightarrow> string list \<times> nat list" where
  "updatePathStack pathStack indentStack currentIndent k =
     (case popDeeper pathStack indentStack currentIndent of
        (p, i) \<Rightarrow> (p @ [k], i @ [currentIndent]))"

section \<open>The comment-tag scanner\<close>

text \<open>
  The configuration: the comment marker and the six tags. The source splices each of
  them into the text of a pattern; the model takes them as literal text, which is what
  the splice means for a marker or tag without a metacharacter of the pattern language
  (all of the default configuration).
\<close>

record config =
  comments_format :: string
  tags_param :: string
  tags_section :: string
  tags_descriptionStart :: string
  tags_descriptionEnd :: string
  tags_skip :: string
  tags_extra :: string

text \<open>
  Modelled from the spec: the default configuration (config.json is not among the
  sources): the marker \<^verbatim>\<open>##\<close> and the tags of the tool's documentation.
\<close>

definition defaultConfig :: config where
  "defaultConfig =
     \<lparr>comments_format = ''##'', tags_param = ''@param'', tags_section = ''@section'',
      tags_descriptionStart = ''@descriptionStart'', tags_descriptionEnd = ''@descriptionEnd'',
      tags_skip = ''@skip'', tags_extra = ''@extra''\<rparr>"

text \<open>\<^verbatim>\<open>^\s*${format}\s*${param}\s*(?:\(([^\s]+)\))?\s*(\[.*?\])?\s*(.*)$\<close>\<close>

definition paramRegex :: "config \<Rightarrow> regex" where
  "paramRegex cfg =
     seqs [Bol, Star (Cls Space), Lit (comments_format cfg), Star (Cls Space),
           Lit (tags_param cfg), Star (Cls Space),
           Opt (seqs [Lit ''('', Group 1 (Plus (Cls NotSpace)), Lit '')'']),
           Star (Cls Space),
           Opt (Group 2 (seqs [Lit ''['', LazyStar (Cls Dot), Lit '']''])),
           Star (Cls Space), Group 3 (Star (Cls Dot)), Eol]"

text \<open>\<^verbatim>\<open>^\s*${format}\s*${section}\s*(.*)$\<close>\<close>

definition sectionRegex :: "config \<Rightarrow> regex" where
  "sectionRegex cfg =
     seqs [Bol, Star (Cls Space), Lit (comments_format cfg), Star (Cls Space),
           Lit (tags_section cfg), Star (Cls Space), Group 1 (Star (Cls Dot)), Eol]"

text \<open>\<^verbatim>\<open>^\s*${format}\s*${descriptionStart}\s*(.*)\<close>\<close>

definition descriptionStartRegex :: "config \<Rightarrow> regex" where
  "descriptionStartRegex cfg =
     seqs [Bol, Star (Cls Space), Lit (comments_format cfg), Star (Cls Space),
           Lit (tags_descriptionStart cfg), Star (Cls Space), Group 1 (Star (Cls Dot))]"

text \<open>\<^verbatim>\<open>^\s*${format}\s?(.*)\<close>\<close>

definition descriptionContentRegex :: "config \<Rightarrow> regex" where
  "descriptionContentRegex cfg =
     seqs [Bol, Star (Cls Space), Lit (comments_format cfg), Opt (Cls Space),
           Group 1 (Star (Cls Dot))]"

text \<open>\<^verbatim>\<open>^\s*${format}\s*${descriptionEnd}\s*(.*)\<close>\<close>

definition descriptionEndRegex :: "config \<Rightarrow> regex" where
  "descriptionEndRegex cfg =
     seqs [Bol, Star (Cls Space), Lit (comments_format cfg), Star (Cls Space),
           Lit (tags_descriptionEnd cfg), Star (Cls Space), Group 1 (Star (Cls Dot))]"

text \<open>\<^verbatim>\<open>^\s*${format}\s*${skip}\s*(?:\(([^\s]+)\))?\s*(.*)$\<close>\<close>

definition skipRegex :: "config \<Rightarrow> regex" where
  "skipRegex cfg =
     seqs [Bol, Star (Cls Space), Lit (comments_format cfg), Star (Cls Space),
           Lit (tags_skip cfg), Star (Cls Space),
           Opt (seqs [Lit ''('', Group 1 (Plus (Cls NotSpace)), Lit '')'']),
           Star (Cls Space), Group 2 (Star (Cls Dot)), Eol]"

text \<open>\<^verbatim>\<open>^\s*${format}\s*${extra}\s*(?:\(([^\s]+)\))?\s*(\[.*?\])?\s*(.*)$\<close>\<close>

definition extraRegex :: "config \<Rightarrow> regex" where
  "extraRegex cfg =
     seqs [Bol, Star (Cls Space), Lit (comments_format cfg), Star (Cls Space),
           Lit (tags_extra cfg), Star (Cls Space),
           Opt (seqs [Lit ''('', Group 1 (Plus (Cls NotSpace)), Lit '')'']),
           Star (Cls Space),
           Opt (Group 2 (seqs [Lit ''['', LazyStar (Cls Dot), Lit '']''])),
           Star (Cls Space), Group 3 (Star (Cls Dot)), Eol]"

text \<open>
  The local variables of \<open>parseMetadataComments\<close> that outlive a line. \<open>currentSection\<close>
  refers to a section held by \<open>parsedValues\<close>: it is the section's index there.
\<close>

record scan_state =
  parsedValues :: Metadata
  currentSection :: "nat option"
  descriptionParsing :: bool
  pathStack :: "string list"
  indentStack :: "nat list"
  pendingParam :: "Parameter option"

definition initialState :: scan_state where
  "initialState =
     \<lparr>parsedValues = newMetadata, currentSection = None, descriptionParsing = False,
      pathStack = [], indentStack = [], pendingParam = None\<rparr>"

text \<open>
  The block that ends every branch creating a parameter: with a current section the
  parameter gets the section's name and is added to the section; it is added to
  \<open>parsedValues\<close> in any case.
\<close>

definition attach :: "Parameter \<Rightarrow> scan_state \<Rightarrow> scan_state" where
  "attach p st =
     (case currentSection st of
        Some i \<Rightarrow>
          (let secs = sections (parsedValues st);
               p' = p\<lparr>section' := Some (section_name (secs ! i))\<rparr>
           in st\<lparr>parsedValues :=
                   addParameter p'
                     ((parsedValues st)\<lparr>sections := secs[i := section_addParameter p' (secs ! i)]\<rparr>)\<rparr>)
      | None \<Rightarrow> st\<lparr>parsedValues := addParameter p (parsedValues st)\<rparr>)"

text \<open>
  The first step of a line: a structural line updates the stacks and gives a pending
  parameter the current path.
\<close>

definition stepYaml :: "string \<Rightarrow> scan_state \<Rightarrow> scan_state" where
  "stepYaml line st =
     (let yi = parseYamlLine line in
      if isYamlKey yi then
        (case updatePathStack (pathStack st) (indentStack st) (indent yi) (key yi) of
           (p, i) \<Rightarrow>
             (let st1 = st\<lparr>pathStack := p, indentStack := i\<rparr> in
              case pendingParam st1 of
                Some pending \<Rightarrow>
                  (attach (pending\<lparr>name := buildCurrentPath p\<rparr>) st1)\<lparr>pendingParam := None\<rparr>
              | None \<Rightarrow> st1))
      else st)"

text \<open>
  The branch without an explicit path, the same for the three tags: the new parameter
  becomes the pending one; when the next line is structural it gets the path the stacks
  would have after that line (computed on copies) and is attached at once.
\<close>

definition autoDetect :: "string list \<Rightarrow> nat \<Rightarrow> Parameter \<Rightarrow> scan_state \<Rightarrow> scan_state" where
  "autoDetect lines lineIndex pending st =
     (let st1 = st\<lparr>pendingParam := Some pending\<rparr> in
      if lineIndex + 1 < length lines then
        (let nextYamlInfo = parseYamlLine (lines ! (lineIndex + 1)) in
         if isYamlKey nextYamlInfo then
           (case updatePathStack (pathStack st1) (indentStack st1)
                   (indent nextYamlInfo) (key nextYamlInfo) of
              (tempPathStack, tempIndentStack) \<Rightarrow>
                (attach (pending\<lparr>name := buildCurrentPath tempPathStack\<rparr>) st1)
                  \<lparr>pendingParam := None\<rparr>)
         else st1)
      else st1)"

text \<open>
  \<^verbatim>\<open>m[2] ? m[2].split('[')[1].split(']')[0] : ''\<close>. A group 2 that took part starts with
  an opening bracket, so the split at the bracket has a second part; the last branch
  stands for the failing read of a missing part, which does not occur.
\<close>

definition modifiersText :: "string option \<Rightarrow> string" where
  "modifiersText m2 =
     (case m2 of
        None \<Rightarrow> []
      | Some t \<Rightarrow>
          if t = [] then []
          else (case js_split (CHR ''['') t of
                  _ # b # _ \<Rightarrow> (case js_split (CHR '']'') b of x # _ \<Rightarrow> x | [] \<Rightarrow> [])
                | _ \<Rightarrow> []))"

text \<open>\<^verbatim>\<open>modifiers.split(',').filter((m) => m).map((m) => m.trim())\<close>\<close>

definition modifierList :: "string \<Rightarrow> string list" where
  "modifierList ms = map trim (filter (\<lambda>m. m \<noteq> []) (js_split (CHR '','') ms))"

text \<open>A path is explicit when group 1 is defined and not the empty string.\<close>

definition explicitPath :: "groups \<Rightarrow> string option" where
  "explicitPath m = (case m 1 of None \<Rightarrow> None | Some t \<Rightarrow> if t = [] then None else Some t)"

definition stepParam :: "config \<Rightarrow> string list \<Rightarrow> nat \<Rightarrow> scan_state \<Rightarrow> scan_state" where
  "stepParam cfg lines lineIndex st =
     (case js_match (lines ! lineIndex) (paramRegex cfg) of
        None \<Rightarrow> st
      | Some paramMatch \<Rightarrow>
          (let mods = modifiersText (paramMatch 2);
               descr = paramMatch 3
           in case explicitPath paramMatch of
                Some path \<Rightarrow>
                  attach ((newParameter path)
                            \<lparr>modifiers := Some (modifierList mods), description := descr\<rparr>) st
              | None \<Rightarrow>
                  autoDetect lines lineIndex
                    ((newParameter [])
                       \<lparr>modifiers := Some (modifierList mods), description := descr\<rparr>) st))"

definition stepSection :: "config \<Rightarrow> string \<Rightarrow> scan_state \<Rightarrow> scan_state" where
  "stepSection cfg line st =
     (case js_match line (sectionRegex cfg) of
        None \<Rightarrow> st
      | Some sectionMatch \<Rightarrow>
          st\<lparr>parsedValues := addSection (newSection (group_text sectionMatch 1)) (parsedValues st),
             currentSection := Some (length (sections (parsedValues st)))\<rparr>)"

definition stepDescriptionEnd :: "config \<Rightarrow> string \<Rightarrow> scan_state \<Rightarrow> scan_state" where
  "stepDescriptionEnd cfg line st =
     (if currentSection st \<noteq> None \<and> descriptionParsing st
         \<and> js_match line (descriptionEndRegex cfg) \<noteq> None
      then st\<lparr>descriptionParsing := False\<rparr>
      else st)"

text \<open>Adding a line to the description of the current section.\<close>

definition describe :: "string \<Rightarrow> scan_state \<Rightarrow> scan_state" where
  "describe l st =
     (case currentSection st of
        None \<Rightarrow> st
      | Some i \<Rightarrow>
          (let secs = sections (parsedValues st) in
           st\<lparr>parsedValues := (parsedValues st)\<lparr>sections := secs[i := addDescriptionLine l (secs ! i)]\<rparr>\<rparr>))"

definition stepDescriptionContent :: "config \<Rightarrow> string \<Rightarrow> scan_state \<Rightarrow> scan_state" where
  "stepDescriptionContent cfg line st =
     (case js_match line (descriptionContentRegex cfg) of
        None \<Rightarrow> st
      | Some descriptionContentMatch \<Rightarrow>
          if currentSection st \<noteq> None \<and> descriptionParsing st
          then describe (group_text descriptionContentMatch 1) st
          else st)"

definition stepDescriptionStart :: "config \<Rightarrow> string \<Rightarrow> scan_state \<Rightarrow> scan_state" where
  "stepDescriptionStart cfg line st =
     (case js_match line (descriptionStartRegex cfg) of
        None \<Rightarrow> st
      | Some descriptionStartMatch \<Rightarrow>
          if currentSection st \<noteq> None \<and> \<not> descriptionParsing st
          then (let st1 = st\<lparr>descriptionParsing := True\<rparr> in
                if group_text descriptionStartMatch 1 \<noteq> []
                then describe (group_text descriptionStartMatch 1) st1
                else st1)
          else st)"

definition stepSkip :: "config \<Rightarrow> string list \<Rightarrow> nat \<Rightarrow> scan_state \<Rightarrow> scan_state" where
  "stepSkip cfg lines lineIndex st =
     (case js_match (lines ! lineIndex) (skipRegex cfg) of
        None \<Rightarrow> st
      | Some skipMatch \<Rightarrow>
          (let descr = skipMatch 2
           in case explicitPath skipMatch of
                Some path \<Rightarrow>
                  attach ((newParameter path)\<lparr>skip := True, description := descr\<rparr>) st
              | None \<Rightarrow>
                  autoDetect lines lineIndex
                    ((newParameter [])\<lparr>skip := True, description := descr\<rparr>) st))"

definition stepExtra :: "config \<Rightarrow> string list \<Rightarrow> nat \<Rightarrow> scan_state \<Rightarrow> scan_state" where
  "stepExtra cfg lines lineIndex st =
     (case js_match (lines ! lineIndex) (extraRegex cfg) of
        None \<Rightarrow> st
      | Some extraMatch \<Rightarrow>
          (let mods = modifiersText (extraMatch 2);
               descr = extraMatch 3
           in case explicitPath extraMatch of
                Some path \<Rightarrow>
                  attach ((newParameter path)
                            \<lparr>modifiers := Some (modifierList mods), description := descr,
                             value' := Some (JStr []), extra := True\<rparr>) st
              | None \<Rightarrow>
                  autoDetect lines lineIndex
                    ((newParameter [])
                       \<lparr>modifiers := Some (modifierList mods), description := descr,
                        value' := Some (JStr []), extra := True\<rparr>) st))"

text \<open>
  The body of the \<^verbatim>\<open>forEach\<close> for the line of index \<open>lineIndex\<close>: the eight steps, in
  the order of the source, each on the state the one before left.
\<close>

definition scanLine :: "config \<Rightarrow> string list \<Rightarrow> scan_state \<Rightarrow> nat \<Rightarrow> scan_state" where
  "scanLine cfg lines st lineIndex =
     (let line = lines ! lineIndex
      in stepExtra cfg lines lineIndex
           (stepSkip cfg lines lineIndex
              (stepDescriptionStart cfg line
                 (stepDescriptionContent cfg line
                    (stepDescriptionEnd cfg line
                       (stepSection cfg line
                          (stepParam cfg lines lineIndex
                             (stepYaml line st))))))))"

text \<open>The state after the first \<open>n\<close> lines, from the initial one.\<close>

definition scan :: "config \<Rightarrow> string list \<Rightarrow> nat \<Rightarrow> scan_state" where
  "scan cfg lines n = foldl (scanLine cfg lines) initialState [0..<n]"

text \<open>
  \<open>parseMetadataComments\<close>, on the text of the file (reading the file is the caller's
  side of the model).
\<close>

definition parseMetadataComments :: "string \<Rightarrow> config \<Rightarrow> Metadata" where
  "parseMetadataComments data cfg =
     (let lines = split_lines data in parsedValues (scan cfg lines (length lines)))"

section \<open>The value flattener\<close>

datatype error = TypeError

text \<open>\<^verbatim>\<open>typeof\<close>, of a value or of \<^verbatim>\<open>undefined\<close>.\<close>

fun typeof :: "json option \<Rightarrow> string" where
  "typeof None = ''undefined''"
| "typeof (Some JNull) = ''object''"
| "typeof (Some (JBool b)) = ''boolean''"
| "typeof (Some (JNum x)) = ''number''"
| "typeof (Some (JStr s)) = ''string''"
| "typeof (Some (JArr xs)) = ''object''"
| "typeof (Some (JObj kvs)) = ''object''"

fun isArray :: "json option \<Rightarrow> bool" where
  "isArray (Some (JArr xs)) = True"
| "isArray v = False"

fun isString :: "json \<Rightarrow> bool" where
  "isString (JStr s) = True"
| "isString v = False"

text \<open>\<^verbatim>\<open>!v\<close>: the values JavaScript takes for false.\<close>

fun falsy :: "json option \<Rightarrow> bool" where
  "falsy None = True"
| "falsy (Some JNull) = True"
| "falsy (Some (JBool b)) = (\<not> b)"
| "falsy (Some (JNum x)) = (x = 0)"
| "falsy (Some (JStr s)) = (s = [])"
| "falsy (Some v) = False"

text \<open>The decimal numeral of an array index.\<close>

definition digit :: "nat \<Rightarrow> char" where
  "digit d = char_of (48 + d)"

fun showNat :: "nat \<Rightarrow> string" where
  "showNat n = (if n < 10 then [digit n] else showNat (n div 10) @ [digit (n mod 10)])"

declare showNat.simps [simp del]

text \<open>
  Modelled from the spec: the dotted-path flattening utility (the library dot-object is
  not among the sources), section 4.2: the tree is traversed in the order of its maps
  and sequences; a key is joined to the path before it with a dot, an index is appended
  to it in brackets; an entry is made for every scalar, null, empty map and empty
  sequence. \<open>dotInto\<close> lists the assignments in order; the path so far is \<open>None\<close> at the
  root. \<open>assign\<close> is the assignment to a property of the flattened object: a key is
  kept once, at its first place, with its last value. (The keys are kept in this order
  also where JavaScript would enumerate an integer-like key first.)
\<close>

fun isLeaf :: "json \<Rightarrow> bool" where
  "isLeaf (JObj kvs) = (kvs = [])"
| "isLeaf (JArr xs) = (xs = [])"
| "isLeaf v = True"

definition keyPath :: "string option \<Rightarrow> string \<Rightarrow> string" where
  "keyPath pre k = (case pre of None \<Rightarrow> k | Some p \<Rightarrow> p @ ''.'' @ k)"

definition indexPath :: "string option \<Rightarrow> nat \<Rightarrow> string" where
  "indexPath pre i = (case pre of None \<Rightarrow> [] | Some p \<Rightarrow> p) @ ''['' @ showNat i @ '']''"

fun dotInto :: "string option \<Rightarrow> json \<Rightarrow> (string \<times> json) list"
  and dotEntries :: "string option \<Rightarrow> (string \<times> json) list \<Rightarrow> (string \<times> json) list"
  and dotElements :: "string option \<Rightarrow> nat \<Rightarrow> json list \<Rightarrow> (string \<times> json) list"
where
  "dotInto pre (JObj kvs) = dotEntries pre kvs"
| "dotInto pre (JArr xs) = dotElements pre 0 xs"
| "dotInto pre v = []"
| "dotEntries pre [] = []"
| "dotEntries pre ((k, v) # kvs) =
     (if isLeaf v then [(keyPath pre k, v)] else dotInto (Some (keyPath pre k)) v)
     @ dotEntries pre kvs"
| "dotElements pre i [] = []"
| "dotElements pre i (v # vs) =
     (if isLeaf v then [(indexPath pre i, v)] else dotInto (Some (indexPath pre i)) v)
     @ dotElements pre (Suc i) vs"

fun assign :: "string \<Rightarrow> json \<Rightarrow> (string \<times> json) list \<Rightarrow> (string \<times> json) list" where
  "assign k v [] = [(k, v)]"
| "assign k v ((k', v') # tgt) = (if k' = k then (k, v) # tgt else (k', v') # assign k v tgt)"

text \<open>
  \<^verbatim>\<open>dot.dot(valuesJSON)\<close>: the flattened object of a map or a sequence. The keys of
  \<^verbatim>\<open>null\<close> cannot be listed, which is a TypeError; a scalar document has no entry
  (the characters of a string, which JavaScript would list, aside).
\<close>

fun dot :: "json \<Rightarrow> error + (string \<times> json) list" where
  "dot JNull = Inl TypeError"
| "dot v = Inr (foldl (\<lambda>tgt (k, x). assign k x tgt) [] (dotInto None v))"

text \<open>
  Modelled from the spec: the direct structural lookup (the library lodash is not among
  the sources), section 4.2. \<open>getProp\<close> reads a property: a key of a map, an index of a
  sequence by its numeral; anything else has no such property. \<open>baseGet\<close> walks the
  segments of a path and is \<^verbatim>\<open>undefined\<close> when there is no segment at all.
  \<open>stringToPath\<close> cuts a path at dots and brackets. \<open>lodash_get\<close> on a path given as a
  string first takes the path for a key of the tree itself, then walks its segments;
  \<open>lodash_get_path\<close> is the lookup on a path given as an array of segments.
\<close>

fun getProp :: "json \<Rightarrow> string \<Rightarrow> json option" where
  "getProp (JObj kvs) k = map_of kvs k"
| "getProp (JArr xs) k = map_of (zip (map showNat [0..<length xs]) xs) k"
| "getProp v k = None"

fun walk :: "json option \<Rightarrow> string list \<Rightarrow> json option" where
  "walk v [] = v"
| "walk None (k # ks) = None"
| "walk (Some v) (k # ks) = walk (getProp v k) ks"

definition baseGet :: "json \<Rightarrow> string list \<Rightarrow> json option" where
  "baseGet obj path = (if path = [] then None else walk (Some obj) path)"

definition is_sep :: "char \<Rightarrow> bool" where
  "is_sep c = (c = CHR ''.'' \<or> c = CHR ''['' \<or> c = CHR '']'')"

fun pieces :: "string \<Rightarrow> string list" where
  "pieces [] = [[]]"
| "pieces (c # cs) =
     (if is_sep c then [] # pieces cs
      else (case pieces cs of [] \<Rightarrow> [[c]] | w # ws \<Rightarrow> (c # w) # ws))"

definition stringToPath :: "string \<Rightarrow> string list" where
  "stringToPath s = filter (\<lambda>t. t \<noteq> []) (pieces s)"

definition lodash_get :: "json \<Rightarrow> string \<Rightarrow> json option" where
  "lodash_get obj path =
     (case getProp obj path of
        Some v \<Rightarrow> Some v
      | None \<Rightarrow> baseGet obj (stringToPath path))"

definition lodash_get_path :: "json \<Rightarrow> string list \<Rightarrow> json option" where
  "lodash_get_path obj path = baseGet obj path"

text \<open>
  Modelled from the spec: \<open>getArrayPath\<close> and \<open>getArrayPrefix\<close> (utils.js is not among the
  sources), section 4.2. \<open>getArrayPath\<close> is the lookup strategy by literal keys: at each
  level it takes the first key (or index in brackets) of the tree that the path starts
  with and that a dot, a bracket or the end of the path follows, and goes on below it
  with what is left; what matches nothing is one last segment. \<open>getArrayPrefix\<close> is the
  path of the array an element's path ends in: the text before its last opening
  bracket.
\<close>

definition afterKey :: "string \<Rightarrow> string \<Rightarrow> string option" where
  "afterKey path k =
     (if path = k then Some []
      else if startsWith path (k @ ''.'') then Some (drop (length k + 1) path)
      else if startsWith path (k @ ''['') then Some (drop (length k) path)
      else None)"

fun firstKey :: "string \<Rightarrow> (string \<times> json) list \<Rightarrow> (string \<times> json \<times> string) option" where
  "firstKey path [] = None"
| "firstKey path ((k, v) # kvs) =
     (case afterKey path k of
        Some rest \<Rightarrow> if length rest < length path then Some (k, v, rest) else firstKey path kvs
      | None \<Rightarrow> firstKey path kvs)"

definition members :: "json \<Rightarrow> (string \<times> json) list" where
  "members v =
     (case v of
        JObj kvs \<Rightarrow> kvs
      | JArr xs \<Rightarrow> zip (map (\<lambda>i. ''['' @ showNat i @ '']'') [0..<length xs]) xs
      | _ \<Rightarrow> [])"

definition bare :: "string \<Rightarrow> string" where
  "bare k = (if k \<noteq> [] \<and> hd k = CHR ''['' \<and> last k = CHR '']'' then butlast (tl k) else k)"

function getArrayPath :: "json \<Rightarrow> string \<Rightarrow> string list" where
  "getArrayPath obj path =
     (if path = [] then []
      else (case firstKey path (members obj) of
              None \<Rightarrow> [path]
            | Some (k, v, rest) \<Rightarrow>
                (case obj of JArr xs \<Rightarrow> bare k | _ \<Rightarrow> k)
                # (if length rest < length path then getArrayPath v rest else [])))"
  by pat_completeness auto
termination
  by (relation "measure (\<lambda>(obj, path). length path)") auto

declare getArrayPath.simps [simp del]

definition getArrayPrefix :: "string \<Rightarrow> string" where
  "getArrayPrefix path = rev (tl (dropWhile (\<lambda>c. c \<noteq> CHR ''['') (rev path)))"

text \<open>
  The check for a plain array in the loop of \<open>createValuesObject\<close>: for a path with a
  bracket, the array at the path's prefix is read; when all its elements are strings,
  the array and the prefix take the place of the value and the path. \<^verbatim>\<open>forEach\<close> on
  what is not an array is a TypeError.
\<close>

definition plainArray ::
  "json \<Rightarrow> string \<Rightarrow> json option \<Rightarrow> error + (json option \<times> string)" where
  "plainArray valuesJSON valuePath v =
     (if length (js_split (CHR ''['') valuePath) > 1 then
        (let arrayPrefix = getArrayPrefix valuePath in
         case lodash_get_path valuesJSON (getArrayPath valuesJSON arrayPrefix) of
           Some (JArr es) \<Rightarrow>
             if list_all isString es then Inr (Some (JArr es), arrayPrefix)
             else Inr (v, valuePath)
         | _ \<Rightarrow> Inl TypeError)
      else Inr (v, valuePath))"

text \<open>The body of the loop for one flattened path, on the result so far.\<close>

definition valuesStep :: "json \<Rightarrow> Parameter list \<Rightarrow> string \<Rightarrow> error + Parameter list" where
  "valuesStep valuesJSON resultValues valuePath0 =
     (let direct = lodash_get valuesJSON valuePath0;
          renderInSchema = (direct \<noteq> None);
          value0 = (if direct = None
                    then lodash_get_path valuesJSON (getArrayPath valuesJSON valuePath0)
                    else direct);
          type0 = typeof value0
      in case plainArray valuesJSON valuePath0 value0 of
           Inl e \<Rightarrow> Inl e
         | Inr (value1, valuePath) \<Rightarrow>
             (let v = (if value1 = Some JNull then Some (JStr ''nil'') else value1);
                  t = (if typeof v = ''object'' \<and> isArray v then ''array'' else type0)
              in if find (\<lambda>p. name p = valuePath) resultValues = None
                 then (let param = newParameter valuePath;
                           param1 = (if falsy (value' param) then param\<lparr>value' := v\<rparr> else param)
                       in Inr (resultValues @ [param1\<lparr>type' := Some t, schema := Some renderInSchema\<rparr>]))
                 else Inr resultValues))"

fun valuesLoop :: "json \<Rightarrow> string list \<Rightarrow> Parameter list \<Rightarrow> error + Parameter list" where
  "valuesLoop valuesJSON [] resultValues = Inr resultValues"
| "valuesLoop valuesJSON (valuePath # rest) resultValues =
     (case valuesStep valuesJSON resultValues valuePath of
        Inl e \<Rightarrow> Inl e
      | Inr r \<Rightarrow> valuesLoop valuesJSON rest r)"

text \<open>
  \<open>createValuesObject\<close>, on the tree the YAML parser returns for the file (the parser
  is an external library): the loop runs over the keys of the flattened object.
\<close>

definition createValuesObject :: "json \<Rightarrow> error + Parameter list" where
  "createValuesObject valuesJSON =
     (case dot valuesJSON of
        Inl e \<Rightarrow> Inl e
      | Inr dottedFormatProperties \<Rightarrow> valuesLoop valuesJSON (map fst dottedFormatProperties) [])"

section \<open>Notions used in the statements\<close>

text \<open>Every parameter a Metadata holds: its own list and the lists of its sections.\<close>

definition allParameters :: "Metadata \<Rightarrow> Parameter list" where
  "allParameters m = parameters m @ concat (map section_parameters (sections m))"

text \<open>
  A parameter of the scanner: no type; a value only when it comes from an extra tag, and
  then the empty string.
\<close>

definition documentationOnly :: "Parameter \<Rightarrow> bool" where
  "documentationOnly p =
     (type' p = None \<and> (if extra p then value' p = Some (JStr []) else value' p = None))"

text \<open>A parameter of the flattener: no description, no modifiers, no section.\<close>

definition valuesOnly :: "Parameter \<Rightarrow> bool" where
  "valuesOnly p = (description p = None \<and> modifiers p = None \<and> section' p = None)"



text \<open>The scanner's state holds parameters of the scanner only, the pending one included.\<close>

definition docState :: "scan_state \<Rightarrow> bool" where
  "docState st =
     (list_all documentationOnly (parameters (parsedValues st))
      \<and> list_all (\<lambda>s. list_all documentationOnly (section_parameters s)) (sections (parsedValues st))
      \<and> (case pendingParam st of None \<Rightarrow> True | Some p \<Rightarrow> documentationOnly p))"




text \<open>
  The description lines of the sections, in order, and the text of a comment line after
  its marker: one character of white space less, up to a line terminator.
\<close>

definition descriptions :: "scan_state \<Rightarrow> string list list" where
  "descriptions st = map section_description (sections (parsedValues st))"


text \<open>
  Positions in a value tree: a path of keys and indices from the root, the value at a
  path, and the dotted name of a path (a key after something else follows a dot; an
  index stands in brackets).
\<close>

datatype seg = Key string | Idx nat



fun segText :: "seg \<Rightarrow> string" where
  "segText (Key k) = k"
| "segText (Idx i) = ''['' @ showNat i @ '']''"


text \<open>
  A tree with clean keys: in every map the keys are distinct (as the properties of an
  object are), not empty and free of dots and brackets, so that a dotted name determines
  its path.
\<close>

definition cleanKey :: "string \<Rightarrow> bool" where
  "cleanKey k = (k \<noteq> [] \<and> list_all (\<lambda>c. \<not> is_sep c) k)"


text \<open>The value a parameter shows for a node (null is shown as nil), and its type tag.\<close>

fun shown :: "json option \<Rightarrow> json option" where
  "shown (Some JNull) = Some (JStr ''nil'')"
| "shown v = v"

fun typeTag :: "json option \<Rightarrow> string" where
  "typeTag (Some (JArr xs)) = ''array''"
| "typeTag v = typeof v"






fun cleanSeg :: "seg \<Rightarrow> bool" where
  "cleanSeg (Key k) = cleanKey k"
| "cleanSeg (Idx i) = True"

fun sepFor :: "seg \<Rightarrow> string" where
  "sepFor (Key k) = ''.''"
| "sepFor (Idx i) = []"





section \<open>Properties of the path tracking and of the line classifier\<close>

lemma sorted_wrt_less_last:
  "sorted_wrt (<) (i::nat list) \<Longrightarrow> i \<noteq> [] \<Longrightarrow> x \<in> set i \<Longrightarrow> x \<le> last i"
  by (induction i rule: rev_induct) (auto simp: sorted_wrt_append less_imp_le)

lemma sorted_wrt_butlast:
  "sorted_wrt (<) (i::nat list) \<Longrightarrow> sorted_wrt (<) (butlast i)"
  by (induction i rule: rev_induct) (auto simp: sorted_wrt_append)

lemma popDeeper_filter:
  "length p = length i \<Longrightarrow> sorted_wrt (<) i \<Longrightarrow>
   popDeeper p i c = (map fst (filter (\<lambda>e. snd e < c) (zip p i)), filter (\<lambda>x. x < c) i)"
proof (induction p i c rule: popDeeper.induct)
  case (1 p i c)
  show ?case
  proof (cases "length i > 0 \<and> last i \<ge> c")
    case True
    then have ne: "i \<noteq> []" "p \<noteq> []" using "1.prems" by auto
    have len: "length (butlast p) = length (butlast i)" using "1.prems" by simp
    have srt: "sorted_wrt (<) (butlast i)" using "1.prems"(2) by (rule sorted_wrt_butlast)
    have ih: "popDeeper (butlast p) (butlast i) c =
        (map fst (filter (\<lambda>e. snd e < c) (zip (butlast p) (butlast i))),
         filter (\<lambda>x. x < c) (butlast i))"
      using "1.IH"[OF True len srt] .
    have i_eq: "i = butlast i @ [last i]" using ne by simp
    have p_eq: "p = butlast p @ [last p]" using ne by simp
    have f1: "filter (\<lambda>x. x < c) i = filter (\<lambda>x. x < c) (butlast i)"
      using True by (subst i_eq) (simp del: append_butlast_last_id)
    have z: "zip p i = zip (butlast p) (butlast i) @ [(last p, last i)]"
      using len by (subst p_eq, subst i_eq) (simp del: append_butlast_last_id)
    have f2: "filter (\<lambda>e. snd e < c) (zip p i) =
              filter (\<lambda>e. snd e < c) (zip (butlast p) (butlast i))"
      using True by (simp add: z)
    show ?thesis using True ih f1 f2 by (subst popDeeper.simps) simp
  next
    case False
    have all: "\<forall>x\<in>set i. x < c"
    proof (cases "i = []")
      case True then show ?thesis by simp
    next
      case ne: False
      with False have "last i < c" by simp
      with sorted_wrt_less_last[OF "1.prems"(2) ne] show ?thesis by fastforce
    qed
    then have f1: "filter (\<lambda>x. x < c) i = i" by simp
    have "\<forall>e\<in>set (zip p i). snd e < c" using all by (auto dest: set_zip_rightD)
    then have "filter (\<lambda>e. snd e < c) (zip p i) = zip p i" by simp
    then have f2: "map fst (filter (\<lambda>e. snd e < c) (zip p i)) = p"
      using "1.prems"(1) by simp
    show ?thesis using False f1 f2 by (subst popDeeper.simps) auto
  qed
qed

lemma updatePathStack_filter:
  assumes "length p = length i" "sorted_wrt (<) i"
  shows "updatePathStack p i c k =
           (map fst (filter (\<lambda>e. snd e < c) (zip p i)) @ [k], filter (\<lambda>x. x < c) i @ [c])"
  by (simp add: updatePathStack_def popDeeper_filter[OF assms])

lemma length_filter_zip_snd:
  "length p = length i \<Longrightarrow>
   length (filter (\<lambda>e. snd e < (c::nat)) (zip p i)) = length (filter (\<lambda>x. x < c) i)"
  by (induction p i rule: list_induct2) simp_all

lemma updatePathStack_keeps:
  assumes "length p = length i" "sorted_wrt (<) i" "updatePathStack p i c k = (p', i')"
  shows "length p' = length i' \<and> sorted_wrt (<) i'"
proof -
  have eq: "p' = map fst (filter (\<lambda>e. snd e < c) (zip p i)) @ [k]"
           "i' = filter (\<lambda>x. x < c) i @ [c]"
    using updatePathStack_filter[OF assms(1,2), of c k] assms(3) by simp_all
  have "sorted_wrt (<) (filter (\<lambda>x. x < c) i)" using assms(2) by (rule sorted_wrt_filter)
  then show ?thesis
    by (simp add: eq length_filter_zip_snd[OF assms(1)] sorted_wrt_append)
qed

section \<open>What the steps leave alone\<close>

lemma attach_frame [simp]:
  "currentSection (attach p st) = currentSection st"
  "descriptionParsing (attach p st) = descriptionParsing st"
  "pathStack (attach p st) = pathStack st"
  "indentStack (attach p st) = indentStack st"
  "pendingParam (attach p st) = pendingParam st"
  by (simp_all add: attach_def Let_def split: option.splits)

lemma autoDetect_frame [simp]:
  "currentSection (autoDetect lines i p st) = currentSection st"
  "descriptionParsing (autoDetect lines i p st) = descriptionParsing st"
  "pathStack (autoDetect lines i p st) = pathStack st"
  "indentStack (autoDetect lines i p st) = indentStack st"
  by (simp_all add: autoDetect_def Let_def split: prod.splits)

lemma stepParam_frame [simp]:
  "currentSection (stepParam cfg lines i st) = currentSection st"
  "descriptionParsing (stepParam cfg lines i st) = descriptionParsing st"
  "pathStack (stepParam cfg lines i st) = pathStack st"
  "indentStack (stepParam cfg lines i st) = indentStack st"
  by (simp_all add: stepParam_def Let_def split: option.splits)

lemma stepSkip_frame [simp]:
  "currentSection (stepSkip cfg lines i st) = currentSection st"
  "descriptionParsing (stepSkip cfg lines i st) = descriptionParsing st"
  "pathStack (stepSkip cfg lines i st) = pathStack st"
  "indentStack (stepSkip cfg lines i st) = indentStack st"
  by (simp_all add: stepSkip_def Let_def split: option.splits)

lemma stepExtra_frame [simp]:
  "currentSection (stepExtra cfg lines i st) = currentSection st"
  "descriptionParsing (stepExtra cfg lines i st) = descriptionParsing st"
  "pathStack (stepExtra cfg lines i st) = pathStack st"
  "indentStack (stepExtra cfg lines i st) = indentStack st"
  by (simp_all add: stepExtra_def Let_def split: option.splits)

lemma stepSection_frame [simp]:
  "descriptionParsing (stepSection cfg l st) = descriptionParsing st"
  "pathStack (stepSection cfg l st) = pathStack st"
  "indentStack (stepSection cfg l st) = indentStack st"
  "pendingParam (stepSection cfg l st) = pendingParam st"
  by (simp_all add: stepSection_def split: option.splits)

lemma describe_frame [simp]:
  "currentSection (describe l st) = currentSection st"
  "descriptionParsing (describe l st) = descriptionParsing st"
  "pathStack (describe l st) = pathStack st"
  "indentStack (describe l st) = indentStack st"
  "pendingParam (describe l st) = pendingParam st"
  "parameters (parsedValues (describe l st)) = parameters (parsedValues st)"
  by (simp_all add: describe_def Let_def split: option.splits)

lemma stepDescriptionEnd_frame [simp]:
  "currentSection (stepDescriptionEnd cfg l st) = currentSection st"
  "pathStack (stepDescriptionEnd cfg l st) = pathStack st"
  "indentStack (stepDescriptionEnd cfg l st) = indentStack st"
  "pendingParam (stepDescriptionEnd cfg l st) = pendingParam st"
  "parsedValues (stepDescriptionEnd cfg l st) = parsedValues st"
  by (simp_all add: stepDescriptionEnd_def)

lemma stepDescriptionContent_frame [simp]:
  "currentSection (stepDescriptionContent cfg l st) = currentSection st"
  "descriptionParsing (stepDescriptionContent cfg l st) = descriptionParsing st"
  "pathStack (stepDescriptionContent cfg l st) = pathStack st"
  "indentStack (stepDescriptionContent cfg l st) = indentStack st"
  "pendingParam (stepDescriptionContent cfg l st) = pendingParam st"
  "parameters (parsedValues (stepDescriptionContent cfg l st)) = parameters (parsedValues st)"
  by (simp_all add: stepDescriptionContent_def split: option.splits)

lemma stepDescriptionStart_frame [simp]:
  "currentSection (stepDescriptionStart cfg l st) = currentSection st"
  "pathStack (stepDescriptionStart cfg l st) = pathStack st"
  "indentStack (stepDescriptionStart cfg l st) = indentStack st"
  "pendingParam (stepDescriptionStart cfg l st) = pendingParam st"
  "parameters (parsedValues (stepDescriptionStart cfg l st)) = parameters (parsedValues st)"
  by (simp_all add: stepDescriptionStart_def Let_def split: option.splits)

lemma stepYaml_stacks:
  assumes "length (pathStack st) = length (indentStack st)" "sorted_wrt (<) (indentStack st)"
  shows "length (pathStack (stepYaml l st)) = length (indentStack (stepYaml l st))
         \<and> sorted_wrt (<) (indentStack (stepYaml l st))"
proof (cases "isYamlKey (parseYamlLine l)")
  case False
  then show ?thesis using assms by (simp add: stepYaml_def Let_def)
next
  case True
  obtain p i where u: "updatePathStack (pathStack st) (indentStack st)
      (indent (parseYamlLine l)) (key (parseYamlLine l)) = (p, i)"
    by (cases "updatePathStack (pathStack st) (indentStack st)
      (indent (parseYamlLine l)) (key (parseYamlLine l))") auto
  from updatePathStack_keeps[OF assms u] have "length p = length i \<and> sorted_wrt (<) i" .
  then show ?thesis using True u
    by (simp add: stepYaml_def Let_def split: option.splits)
qed

lemma scanLine_stacks:
  assumes "length (pathStack st) = length (indentStack st)" "sorted_wrt (<) (indentStack st)"
  shows "length (pathStack (scanLine cfg lines st n)) = length (indentStack (scanLine cfg lines st n))
         \<and> sorted_wrt (<) (indentStack (scanLine cfg lines st n))"
  using stepYaml_stacks[OF assms] by (simp add: scanLine_def Let_def)

lemma scan_Suc: "scan cfg lines (Suc n) = scanLine cfg lines (scan cfg lines n) n"
  by (simp add: scan_def)

lemma scan_stacks:
  "length (pathStack (scan cfg lines n)) = length (indentStack (scan cfg lines n))
   \<and> sorted_wrt (<) (indentStack (scan cfg lines n))"
proof (induction n)
  case 0
  show ?case by (simp add: scan_def initialState_def)
next
  case (Suc n)
  then show ?case using scanLine_stacks by (simp add: scan_Suc)
qed

text \<open>
  Claim C8. On stacks of equal length whose indents ascend strictly, \<open>updatePathStack\<close>
  returns stacks of equal length whose indents ascend strictly; it keeps exactly the
  entries whose indent is less than the incoming one (it pops those whose indent is
  greater or equal) and pushes the new key and indent. So the two properties hold of the
  scanner's stacks after any number of lines.
\<close>

theorem updatePathStack_invariant:
  assumes "length p = length i" and "sorted_wrt (<) i"
  shows "(case updatePathStack p i c k of
            (p', i') \<Rightarrow>
              length p' = length i' \<and> sorted_wrt (<) i'
              \<and> i' = filter (\<lambda>x. x < c) i @ [c]
              \<and> p' = map fst (filter (\<lambda>e. snd e < c) (zip p i)) @ [k])
         \<and> length (pathStack (scan cfg lines n)) = length (indentStack (scan cfg lines n))
         \<and> sorted_wrt (<) (indentStack (scan cfg lines n))"
proof -
  obtain p' i' where u: "updatePathStack p i c k = (p', i')"
    by (cases "updatePathStack p i c k") auto
  have a: "length p' = length i' \<and> sorted_wrt (<) i'"
    using updatePathStack_keeps[OF assms u] .
  have b: "i' = filter (\<lambda>x. x < c) i @ [c]"
          "p' = map fst (filter (\<lambda>e. snd e < c) (zip p i)) @ [k]"
    using updatePathStack_filter[OF assms, of c k] u by simp_all
  show ?thesis using a b u scan_stacks[of cfg lines n] by simp
qed

theorem updatePathStack_invariant_witness:
  "length [''a'', ''b'', ''c''] = length [0, 2, 4::nat] \<and> sorted_wrt (<) [0, 2, 4::nat]
   \<and> updatePathStack [''a'', ''b'', ''c''] [0, 2, 4] 2 ''d'' = ([''a'', ''d''], [0, 2])
   \<and> pathStack (scan defaultConfig [''a:'', ''  b:'', ''    c: 1'', ''  d: 2''] 4) = [''a'', ''d'']
   \<and> indentStack (scan defaultConfig [''a:'', ''  b:'', ''    c: 1'', ''  d: 2''] 4) = [0, 2]"
proof -
  have h1: "length [''a'', ''b'', ''c''] = length [0, 2, 4::nat]" by simp
  have h2: "sorted_wrt (<) [0, 2, 4::nat]" by simp
  have e1: "updatePathStack [''a'', ''b'', ''c''] [0, 2, 4] 2 ''d'' = ([''a'', ''d''], [0, 2])"
    by code_simp
  have e2: "pathStack (scan defaultConfig [''a:'', ''  b:'', ''    c: 1'', ''  d: 2''] 4) = [''a'', ''d'']"
    by code_simp
  have e3: "indentStack (scan defaultConfig [''a:'', ''  b:'', ''    c: 1'', ''  d: 2''] 4) = [0, 2]"
    by code_simp
  show ?thesis
    using updatePathStack_invariant[OF h1 h2, of 2 "''d''" defaultConfig
        "[''a:'', ''  b:'', ''    c: 1'', ''  d: 2'']" 4] h1 h2 e1 e2 e3
    by simp
qed

section \<open>Comment lines\<close>

lemma trim_starts:
  assumes "\<not> is_space c" "list_all is_space ws"
  shows "\<exists>zs. trim (ws @ c # ys) = c # zs"
proof -
  have d: "dropWhile is_space (ws @ c # ys) = c # ys"
    using assms by (induction ws) auto
  have "\<exists>us. dropWhile is_space (rev ys @ [c]) = us @ [c]"
    using assms(1) by (cases "\<forall>x\<in>set (rev ys). is_space x") (auto simp: dropWhile_append)
  then obtain us where "dropWhile is_space (rev ys @ [c]) = us @ [c]" by blast
  then show ?thesis by (simp add: trim_def d)
qed

lemma hash_not_space: "\<not> is_space (CHR ''#'')"
  by (simp add: is_space_def)

text \<open>
  Claim C7, as amended. \<open>parseYamlLine\<close> has no access to the configuration: the
  comment character it knows is the hash sign. So a line whose first character after
  white space is a comment marker that begins with a hash sign (such as the default
  marker) is reported as not structural, whatever follows the marker. The claim as
  stated fails for a marker that does not begin with a hash sign.
\<close>

theorem parseYamlLine_hash_comment:
  assumes "list_all is_space ws" and "startsWith (comments_format cfg) ''#''"
  shows "\<not> isYamlKey (parseYamlLine (ws @ comments_format cfg @ rest))"
proof -
  from assms(2) obtain m where f: "comments_format cfg = CHR ''#'' # m"
    by (cases "comments_format cfg") (auto simp: startsWith_def)
  from trim_starts[OF hash_not_space assms(1), of "m @ rest"]
  obtain zs where "trim (ws @ comments_format cfg @ rest) = CHR ''#'' # zs"
    by (auto simp: f)
  then have "startsWith (trim (ws @ comments_format cfg @ rest)) ''#''"
    by (simp add: startsWith_def)
  then show ?thesis
    by (simp add: parseYamlLine_def Let_def split: option.splits)
qed

theorem parseYamlLine_hash_comment_witness:
  "list_all is_space ''  '' \<and> startsWith (comments_format defaultConfig) ''#''
   \<and> \<not> isYamlKey (parseYamlLine (''  '' @ comments_format defaultConfig @ '' key: value''))"
proof -
  have h1: "list_all is_space ''  ''" by code_simp
  have h2: "startsWith (comments_format defaultConfig) ''#''" by code_simp
  show ?thesis using parseYamlLine_hash_comment[OF h1 h2, of "'' key: value''"] h1 h2 by simp
qed

theorem parseYamlLine_marker_counterexample:
  "isYamlKey (parseYamlLine (comments_format (defaultConfig\<lparr>comments_format := ''//''\<rparr>) @ '' key: value''))"
  by code_simp

section \<open>The fields a pass assigns, and the names it returns\<close>

lemma list_all_update:
  "list_all P xs \<Longrightarrow> (i < length xs \<Longrightarrow> P y) \<Longrightarrow> list_all P (xs[i := y])"
  by (cases "i < length xs") (auto simp: list_all_iff list_update_beyond dest: set_update_subset_insert[THEN subsetD])

lemma documentationOnly_upd [simp]:
  "documentationOnly (p\<lparr>section' := s\<rparr>) = documentationOnly p"
  "documentationOnly (p\<lparr>name := n\<rparr>) = documentationOnly p"
  by (simp_all add: documentationOnly_def)

lemma attach_doc:
  assumes "documentationOnly p" "docState st"
  shows "docState (attach p st)"
proof (cases "currentSection st")
  case None
  then show ?thesis using assms by (simp add: attach_def docState_def addParameter_def)
next
  case (Some i)
  let ?secs = "sections (parsedValues st)"
  let ?p = "p\<lparr>section' := Some (section_name (?secs ! i))\<rparr>"
  have a: "list_all (\<lambda>s. list_all documentationOnly (section_parameters s)) ?secs"
    using assms(2) by (simp add: docState_def)
  have "list_all (\<lambda>s. list_all documentationOnly (section_parameters s))
          (?secs[i := section_addParameter ?p (?secs ! i)])"
  proof (rule list_all_update[OF a])
    assume "i < length ?secs"
    then have "list_all documentationOnly (section_parameters (?secs ! i))"
      using a by (simp add: list_all_length)
    then show "list_all documentationOnly (section_parameters (section_addParameter ?p (?secs ! i)))"
      using assms(1) by (simp add: section_addParameter_def)
  qed
  then show ?thesis using Some assms
    by (simp add: attach_def docState_def addParameter_def Let_def)
qed

lemma docState_pending [simp]:
  "docState (st\<lparr>pendingParam := None\<rparr>) =
     (list_all documentationOnly (parameters (parsedValues st))
      \<and> list_all (\<lambda>s. list_all documentationOnly (section_parameters s)) (sections (parsedValues st)))"
  "docState (st\<lparr>pendingParam := Some p\<rparr>) =
     (list_all documentationOnly (parameters (parsedValues st))
      \<and> list_all (\<lambda>s. list_all documentationOnly (section_parameters s)) (sections (parsedValues st))
      \<and> documentationOnly p)"
  by (simp_all add: docState_def)

lemma docState_stacks [simp]:
  "docState (st\<lparr>pathStack := p, indentStack := i\<rparr>) = docState st"
  "docState (st\<lparr>descriptionParsing := b\<rparr>) = docState st"
  by (simp_all add: docState_def)

lemma docState_meta:
  "docState st \<Longrightarrow>
   list_all documentationOnly (parameters (parsedValues st))
   \<and> list_all (\<lambda>s. list_all documentationOnly (section_parameters s)) (sections (parsedValues st))"
  by (simp add: docState_def)

lemma stepYaml_doc: "docState st \<Longrightarrow> docState (stepYaml l st)"
proof -
  assume d: "docState st"
  show ?thesis
  proof (cases "isYamlKey (parseYamlLine l)")
    case False then show ?thesis using d by (simp add: stepYaml_def Let_def)
  next
    case True
    obtain p i where u: "updatePathStack (pathStack st) (indentStack st)
        (indent (parseYamlLine l)) (key (parseYamlLine l)) = (p, i)"
      by (cases "updatePathStack (pathStack st) (indentStack st)
        (indent (parseYamlLine l)) (key (parseYamlLine l))") auto
    let ?st1 = "st\<lparr>pathStack := p, indentStack := i\<rparr>"
    have d1: "docState ?st1" using d by simp
    show ?thesis
    proof (cases "pendingParam st")
      case None
      then show ?thesis using True u d1 by (simp add: stepYaml_def Let_def)
    next
      case (Some q)
      then have "documentationOnly q" using d by (simp add: docState_def)
      then have "docState (attach (q\<lparr>name := buildCurrentPath p\<rparr>) ?st1)"
        using d1 by (intro attach_doc) simp_all
      then have "docState ((attach (q\<lparr>name := buildCurrentPath p\<rparr>) ?st1)\<lparr>pendingParam := None\<rparr>)"
        by (simp add: docState_def)
      then show ?thesis using True u Some by (simp add: stepYaml_def Let_def)
    qed
  qed
qed

lemma autoDetect_doc:
  assumes "documentationOnly q" "docState st"
  shows "docState (autoDetect lines i q st)"
proof -
  let ?st1 = "st\<lparr>pendingParam := Some q\<rparr>"
  have d1: "docState ?st1" using assms by (simp add: docState_def)
  have d2: "\<And>n. docState ((attach (q\<lparr>name := n\<rparr>) ?st1)\<lparr>pendingParam := None\<rparr>)"
  proof -
    fix n
    have "docState (attach (q\<lparr>name := n\<rparr>) ?st1)"
      using assms(1) d1 by (intro attach_doc) simp_all
    then show "docState ((attach (q\<lparr>name := n\<rparr>) ?st1)\<lparr>pendingParam := None\<rparr>)"
      by (simp add: docState_def)
  qed
  show ?thesis using d1 d2
    by (simp add: autoDetect_def Let_def split: prod.splits)
qed

lemma newParameter_doc [simp]:
  "documentationOnly ((newParameter n)\<lparr>modifiers := m, description := d\<rparr>)"
  "documentationOnly ((newParameter n)\<lparr>skip := True, description := d\<rparr>)"
  "documentationOnly ((newParameter n)\<lparr>modifiers := m, description := d, value' := Some (JStr []), extra := True\<rparr>)"
  by (simp_all add: documentationOnly_def newParameter_def)

lemma stepParam_doc: "docState st \<Longrightarrow> docState (stepParam cfg lines i st)"
  by (auto simp: stepParam_def Let_def intro!: attach_doc autoDetect_doc split: option.splits)

lemma stepSkip_doc: "docState st \<Longrightarrow> docState (stepSkip cfg lines i st)"
  by (auto simp: stepSkip_def Let_def intro!: attach_doc autoDetect_doc split: option.splits)

lemma stepExtra_doc: "docState st \<Longrightarrow> docState (stepExtra cfg lines i st)"
  by (auto simp: stepExtra_def Let_def intro!: attach_doc autoDetect_doc split: option.splits)

lemma stepSection_doc: "docState st \<Longrightarrow> docState (stepSection cfg l st)"
  by (auto simp: stepSection_def docState_def addSection_def newSection_def split: option.splits)

lemma describe_doc: "docState st \<Longrightarrow> docState (describe l st)"
proof (cases "currentSection st")
  case None then show "docState st \<Longrightarrow> ?thesis" by (simp add: describe_def)
next
  case (Some i)
  assume d: "docState st"
  let ?secs = "sections (parsedValues st)"
  have a: "list_all (\<lambda>s. list_all documentationOnly (section_parameters s)) ?secs"
    using d by (simp add: docState_def)
  have "list_all (\<lambda>s. list_all documentationOnly (section_parameters s))
          (?secs[i := addDescriptionLine l (?secs ! i)])"
  proof (rule list_all_update[OF a])
    assume "i < length ?secs"
    then show "list_all documentationOnly (section_parameters (addDescriptionLine l (?secs ! i)))"
      using a by (simp add: list_all_length addDescriptionLine_def)
  qed
  then show ?thesis using Some d by (simp add: describe_def docState_def Let_def)
qed

lemma stepDescriptionEnd_doc: "docState st \<Longrightarrow> docState (stepDescriptionEnd cfg l st)"
  by (simp add: stepDescriptionEnd_def)

lemma stepDescriptionContent_doc: "docState st \<Longrightarrow> docState (stepDescriptionContent cfg l st)"
  by (auto simp: stepDescriptionContent_def intro: describe_doc split: option.splits)

lemma stepDescriptionStart_doc: "docState st \<Longrightarrow> docState (stepDescriptionStart cfg l st)"
  by (auto simp: stepDescriptionStart_def Let_def intro!: describe_doc split: option.splits)

lemma scanLine_doc: "docState st \<Longrightarrow> docState (scanLine cfg lines st i)"
  unfolding scanLine_def Let_def
  by (intro stepExtra_doc stepSkip_doc stepDescriptionStart_doc stepDescriptionContent_doc
        stepDescriptionEnd_doc stepSection_doc stepParam_doc stepYaml_doc)

lemma scan_doc: "docState (scan cfg lines n)"
proof (induction n)
  case 0
  show ?case by (simp add: scan_def initialState_def docState_def newMetadata_def)
next
  case (Suc n)
  then show ?case by (simp add: scan_Suc scanLine_doc)
qed

section \<open>Parameters of the flattener\<close>

lemma valuesStep_valuesOnly:
  assumes "list_all valuesOnly r" "valuesStep t r k = Inr r'"
  shows "list_all valuesOnly r'"
  using assms
  by (auto simp: valuesStep_def Let_def valuesOnly_def newParameter_def
           split: sum.splits prod.splits if_splits)

lemma valuesLoop_valuesOnly:
  "list_all valuesOnly r \<Longrightarrow> valuesLoop t ks r = Inr ps \<Longrightarrow> list_all valuesOnly ps"
proof (induction ks arbitrary: r)
  case Nil then show ?case by simp
next
  case (Cons k ks)
  then show ?case by (auto split: sum.splits dest: valuesStep_valuesOnly)
qed

lemma valuesStep_distinct:
  assumes "distinct (map name r)" "valuesStep t r k = Inr r'"
  shows "distinct (map name r')"
  using assms
  by (auto simp: valuesStep_def Let_def newParameter_def find_None_iff
           split: sum.splits prod.splits if_splits)

lemma valuesLoop_distinct:
  "distinct (map name r) \<Longrightarrow> valuesLoop t ks r = Inr ps \<Longrightarrow> distinct (map name ps)"
proof (induction ks arbitrary: r)
  case Nil then show ?case by simp
next
  case (Cons k ks)
  then show ?case by (auto split: sum.splits dest: valuesStep_distinct)
qed

text \<open>
  Claim C3, as amended. Every parameter in the Metadata that \<open>parseMetadataComments\<close>
  returns (in its own list or in the list of a section), for any text and
  configuration, has no type, and has a value only when it comes from an extra tag: its
  value is then the empty string. Every parameter that \<open>createValuesObject\<close> returns has
  no description, no modifiers and no section. The claim as stated fails for the extra
  tag, whose branch assigns the empty string as value.
\<close>

theorem scanner_and_flattener_fields:
  "(\<forall>p \<in> set (allParameters (parseMetadataComments data cfg)). documentationOnly p)
   \<and> (\<forall>ps. createValuesObject valuesJSON = Inr ps \<longrightarrow> (\<forall>p \<in> set ps. valuesOnly p))"
proof -
  have "docState (scan cfg (split_lines data) (length (split_lines data)))" by (rule scan_doc)
  then have a: "\<forall>p \<in> set (allParameters (parseMetadataComments data cfg)). documentationOnly p"
    by (auto simp: docState_def allParameters_def parseMetadataComments_def Let_def list_all_iff)
  have b: "\<forall>ps. createValuesObject valuesJSON = Inr ps \<longrightarrow> (\<forall>p \<in> set ps. valuesOnly p)"
  proof (intro allI impI)
    fix ps assume "createValuesObject valuesJSON = Inr ps"
    then obtain d :: "(string \<times> json) list" where "valuesLoop valuesJSON (map fst d) [] = Inr ps"
      by (auto simp: createValuesObject_def split: sum.splits)
    from valuesLoop_valuesOnly[OF _ this] show "\<forall>p \<in> set ps. valuesOnly p"
      by (simp add: list_all_iff)
  qed
  show ?thesis using a b by blast
qed

text \<open>
  Claim C6, as amended. The list that \<open>createValuesObject\<close> returns has no two
  parameters of the same name: the loop adds a parameter only when no parameter of its
  name is in the list. The scanner has no such check: it returns a parameter for every
  tag, so two tags with the same path give two parameters of the same name.
\<close>

theorem flattener_names_distinct:
  "createValuesObject valuesJSON = Inr ps \<Longrightarrow> distinct (map name ps)"
proof -
  assume "createValuesObject valuesJSON = Inr ps"
  then obtain d :: "(string \<times> json) list" where "valuesLoop valuesJSON (map fst d) [] = Inr ps"
    by (auto simp: createValuesObject_def split: sum.splits)
  from valuesLoop_distinct[OF _ this] show ?thesis by simp
qed

theorem scanner_and_flattener_fields_witness:
  "map (\<lambda>p. (name p, extra p, type' p, value' p))
     (allParameters (parseMetadataComments
        (''## @section S'' @ [CHR 0x0A] @ ''## @extra (a.b) documented only'' @ [CHR 0x0A]
         @ ''## @param the count'' @ [CHR 0x0A] @ ''count: 1'') defaultConfig))
   = [(''a.b'', True, None, Some (JStr [])), (''count'', False, None, None),
      (''a.b'', True, None, Some (JStr [])), (''count'', False, None, None)]
   \<and> list_all documentationOnly
     (allParameters (parseMetadataComments
        (''## @section S'' @ [CHR 0x0A] @ ''## @extra (a.b) documented only'' @ [CHR 0x0A]
         @ ''## @param the count'' @ [CHR 0x0A] @ ''count: 1'') defaultConfig))
   \<and> createValuesObject (JObj [(''count'', JNum 1)])
       = Inr [(newParameter ''count'')\<lparr>value' := Some (JNum 1), type' := Some ''number'', schema := Some True\<rparr>]
   \<and> list_all valuesOnly
       [(newParameter ''count'')\<lparr>value' := Some (JNum 1), type' := Some ''number'', schema := Some True\<rparr>]"
proof -
  have e1: "map (\<lambda>p. (name p, extra p, type' p, value' p))
     (allParameters (parseMetadataComments
        (''## @section S'' @ [CHR 0x0A] @ ''## @extra (a.b) documented only'' @ [CHR 0x0A]
         @ ''## @param the count'' @ [CHR 0x0A] @ ''count: 1'') defaultConfig))
   = [(''a.b'', True, None, Some (JStr [])), (''count'', False, None, None),
      (''a.b'', True, None, Some (JStr [])), (''count'', False, None, None)]"
    by code_simp
  have e2: "createValuesObject (JObj [(''count'', JNum 1)])
       = Inr [(newParameter ''count'')\<lparr>value' := Some (JNum 1), type' := Some ''number'', schema := Some True\<rparr>]"
    by code_simp
  show ?thesis
    using scanner_and_flattener_fields[of
        "''## @section S'' @ [CHR 0x0A] @ ''## @extra (a.b) documented only'' @ [CHR 0x0A]
         @ ''## @param the count'' @ [CHR 0x0A] @ ''count: 1''" defaultConfig
        "JObj [(''count'', JNum 1)]"] e1 e2
    by (simp add: list_all_iff)
qed

theorem scanner_extra_value_counterexample:
  "map value' (parameters (parseMetadataComments ''## @extra (image.debug) Enable debug'' defaultConfig))
   = [Some (JStr [])]"
  by code_simp

theorem flattener_names_distinct_witness:
  "createValuesObject (JObj [(''hosts'', JArr [JStr ''a'', JStr ''b'']), (''port'', JNum 80)])
     = Inr [(newParameter ''hosts'')\<lparr>value' := Some (JArr [JStr ''a'', JStr ''b'']),
                                     type' := Some ''array'', schema := Some True\<rparr>,
            (newParameter ''port'')\<lparr>value' := Some (JNum 80), type' := Some ''number'',
                                    schema := Some True\<rparr>]
   \<and> distinct (map name
        [(newParameter ''hosts'')\<lparr>value' := Some (JArr [JStr ''a'', JStr ''b'']),
                                  type' := Some ''array'', schema := Some True\<rparr>,
         (newParameter ''port'')\<lparr>value' := Some (JNum 80), type' := Some ''number'',
                                 schema := Some True\<rparr>])"
proof -
  have e: "createValuesObject (JObj [(''hosts'', JArr [JStr ''a'', JStr ''b'']), (''port'', JNum 80)])
     = Inr [(newParameter ''hosts'')\<lparr>value' := Some (JArr [JStr ''a'', JStr ''b'']),
                                     type' := Some ''array'', schema := Some True\<rparr>,
            (newParameter ''port'')\<lparr>value' := Some (JNum 80), type' := Some ''number'',
                                    schema := Some True\<rparr>]"
    by code_simp
  show ?thesis using flattener_names_distinct[OF e] e by simp
qed

theorem scanner_names_counterexample:
  "\<not> distinct (map name (parameters (parseMetadataComments
       (''## @param (image.tag) Image tag'' @ [CHR 0x0A] @ ''## @param (image.tag) Tag of the image'')
       defaultConfig)))"
  by code_simp

text \<open>
  Claim C1, as amended. On the two lines \<^verbatim>\<open>## @param replicaCount Number of replicas\<close> and
  \<^verbatim>\<open>replicaCount: 3\<close>, with the default configuration, \<open>parseMetadataComments\<close> returns
  exactly one parameter: its name is \<^verbatim>\<open>replicaCount\<close>, taken from the key of the next line,
  and its description is the whole text after the tag, \<^verbatim>\<open>replicaCount Number of replicas\<close>
  (an explicit path is written in parentheses; the tag has none). \<open>createValuesObject\<close>,
  on the tree of the same text, returns exactly one parameter, of name \<^verbatim>\<open>replicaCount\<close>,
  type \<^verbatim>\<open>number\<close> and value 3.
\<close>

theorem replicaCount_scenario:
  "map (\<lambda>p. (name p, description p))
     (parameters (parseMetadataComments
        (''## @param replicaCount Number of replicas'' @ [CHR 0x0A] @ ''replicaCount: 3'')
        defaultConfig))
   = [(''replicaCount'', Some ''replicaCount Number of replicas'')]
   \<and> createValuesObject (JObj [(''replicaCount'', JNum 3)])
     = Inr [(newParameter ''replicaCount'')\<lparr>value' := Some (JNum 3), type' := Some ''number'',
                                            schema := Some True\<rparr>]"
  by code_simp

theorem replicaCount_description_counterexample:
  "map description
     (parameters (parseMetadataComments
        (''## @param replicaCount Number of replicas'' @ [CHR 0x0A] @ ''replicaCount: 3'')
        defaultConfig))
   \<noteq> [Some ''Number of replicas'']"
  by code_simp

section \<open>The pending parameter\<close>









































section \<open>Description capture\<close>

declare run.simps(6,7,8) [simp del]











lemma map_description_update:
  "section_description y = section_description (secs ! i) \<Longrightarrow>
   map section_description (secs[i := y]) = map section_description secs"
  by (cases "i < length secs") (simp_all add: map_update list_update_beyond list_update_same_conv)

lemma descriptions_attach [simp]: "descriptions (attach p st) = descriptions st"
  by (simp add: descriptions_def attach_def Let_def addParameter_def section_addParameter_def
        map_description_update split: option.splits)

lemma descriptions_upd [simp]:
  "descriptions (st\<lparr>pendingParam := x\<rparr>) = descriptions st"
  "descriptions (st\<lparr>descriptionParsing := b\<rparr>) = descriptions st"
  "descriptions (st\<lparr>pathStack := p, indentStack := i\<rparr>) = descriptions st"
  by (simp_all add: descriptions_def)

lemma descriptions_autoDetect [simp]: "descriptions (autoDetect lines i p st) = descriptions st"
  by (simp add: autoDetect_def Let_def split: prod.splits)

lemma descriptions_stepYaml [simp]: "descriptions (stepYaml l st) = descriptions st"
  by (simp add: stepYaml_def Let_def split: prod.splits option.splits)

lemma descriptions_stepParam [simp]: "descriptions (stepParam cfg lines i st) = descriptions st"
  by (simp add: stepParam_def Let_def split: option.splits)

lemma descriptions_stepSkip [simp]: "descriptions (stepSkip cfg lines i st) = descriptions st"
  by (simp add: stepSkip_def Let_def split: option.splits)

lemma descriptions_stepExtra [simp]: "descriptions (stepExtra cfg lines i st) = descriptions st"
  by (simp add: stepExtra_def Let_def split: option.splits)

lemma stepYaml_frame [simp]:
  "currentSection (stepYaml l st) = currentSection st"
  "descriptionParsing (stepYaml l st) = descriptionParsing st"
  by (simp_all add: stepYaml_def Let_def split: prod.splits option.splits)











section \<open>Numerals of indices\<close>

lemma of_char_digit: "d < 10 \<Longrightarrow> of_char (digit d) = (48 + d :: nat)"
  by (simp add: digit_def)

lemma digit_inj: "a < 10 \<Longrightarrow> b < 10 \<Longrightarrow> digit a = digit b \<Longrightarrow> a = b"
proof -
  assume a: "a < 10" and b: "b < 10" and e: "digit a = digit b"
  have "(48 + a :: nat) = of_char (digit a)" using a by (simp only: of_char_digit)
  also have "\<dots> = of_char (digit b)" by (simp only: e)
  also have "\<dots> = 48 + b" using b by (simp only: of_char_digit)
  finally show "a = b" by simp
qed


lemma showNat_nonempty: "showNat n \<noteq> []"
  by (subst showNat.simps) simp

lemma showNat_small: "n < 10 \<Longrightarrow> showNat n = [digit n]"
  by (subst showNat.simps) simp

lemma showNat_big: "\<not> n < 10 \<Longrightarrow> showNat n = showNat (n div 10) @ [digit (n mod 10)]"
  by (subst showNat.simps) simp


lemma showNat_inj: "showNat n = showNat m \<Longrightarrow> n = m"
proof (induction n arbitrary: m rule: showNat.induct)
  case (1 n)
  show ?case
  proof (cases "n < 10")
    case True
    have e: "showNat m = [digit n]" using "1.prems" showNat_small[OF True] by simp
    have m: "m < 10"
    proof (rule ccontr)
      assume "\<not> m < 10"
      then have "showNat m = showNat (m div 10) @ [digit (m mod 10)]" by (rule showNat_big)
      with e have "showNat (m div 10) = []" by simp
      then show False using showNat_nonempty by blast
    qed
    have "showNat m = [digit m]" using m by (rule showNat_small)
    with e have "digit n = digit m" by simp
    then show ?thesis using True m by (rule_tac digit_inj)
  next
    case False
    then have n: "showNat n = showNat (n div 10) @ [digit (n mod 10)]" by (rule showNat_big)
    have m10: "\<not> m < 10"
    proof
      assume "m < 10"
      then have "showNat m = [digit m]" by (rule showNat_small)
      with n "1.prems" have "showNat (n div 10) = []" by simp
      then show False using showNat_nonempty by blast
    qed
    then have m: "showNat m = showNat (m div 10) @ [digit (m mod 10)]" by (rule showNat_big)
    from "1.prems" n m have a: "showNat (n div 10) = showNat (m div 10)"
      and b: "digit (n mod 10) = digit (m mod 10)" by simp_all
    from "1.IH"[OF False a] have d: "n div 10 = m div 10" .
    have "n mod 10 = m mod 10" using b by (intro digit_inj) simp_all
    with d show ?thesis by (metis div_mult_mod_eq)
  qed
qed

section \<open>Paths as strings\<close>










lemma sep_chars [simp]: "is_sep (CHR ''.'')" "is_sep (CHR ''['')" "is_sep (CHR '']'')"
  by (simp_all add: is_sep_def)




lemma sepFor_segText_head:
  "cleanSeg s \<Longrightarrow> sepFor s @ segText s \<noteq> [] \<and> is_sep (hd (sepFor s @ segText s))"
  by (cases s) simp_all













section \<open>The flattened paths\<close>









section \<open>Lookups\<close>















section \<open>The lookup by literal keys\<close>










lemma segText_Idx_inj: "segText (Idx i) = segText (Idx j) \<Longrightarrow> i = j"
  by (simp add: showNat_inj)




lemma bare_bracket: "bare (segText (Idx i)) = showNat i"
  by (simp add: bare_def)





section \<open>The loop of the flattener\<close>






section \<open>The parameter of a path\<close>



lemma typeTag_shown:
  "(if typeof (if w = Some JNull then Some (JStr ''nil'') else w) = ''object''
       \<and> isArray (if w = Some JNull then Some (JStr ''nil'') else w)
    then ''array'' else typeof w) = typeTag w"
proof (cases w)
  case None then show ?thesis by simp
next
  case (Some x) then show ?thesis by (cases x) simp_all
qed

lemma shown_if: "(if w = Some JNull then Some (JStr ''nil'') else w) = shown w"
proof (cases w)
  case None then show ?thesis by simp
next
  case (Some x) then show ?thesis by (cases x) simp_all
qed

lemma typeTag_shown2:
  "(if typeof (shown w) = ''object'' \<and> isArray (shown w) then ''array'' else typeof w) = typeTag w"
proof (cases w)
  case None then show ?thesis by simp
next
  case (Some x) then show ?thesis by (cases x) simp_all
qed











section \<open>Null leaves\<close>



section \<open>Arrays\<close>




end
